theory Spec2Isabelle
  imports Complex_Main "HOL-Library.Sublist"
begin

section \<open>The VRBLL chat relay: \<^verbatim>\<open>wsServer.ts\<close> and \<^verbatim>\<open>session.ts\<close>\<close>

text \<open>
  The relay is a single-threaded event loop: every handler of \<^verbatim>\<open>wsServer.ts\<close> runs to
  completion on the shared module state (the session map of \<^verbatim>\<open>session.ts\<close>, the
  \<^verbatim>\<open>rateLimitMap\<close>, the message store, and the client set of the socket server). The
  model is a state record and one function per handler that returns the state after the
  handler has run. What the environment supplies to a handler (the received frame, the
  value of \<^verbatim>\<open>Date.now()\<close>, the value of \<^verbatim>\<open>uuidv4()\<close>) is an argument of the event.
\<close>

subsection \<open>Received frames: the result of \<^verbatim>\<open>JSON.parse\<close>\<close>

text \<open>
  A JavaScript string is a sequence of UTF-16 code units; the program only compares
  strings and reads their \<^verbatim>\<open>length\<close>. The model keeps a string as the list of its units
  (type \<open>string\<close>), so \<open>length\<close> is the \<^verbatim>\<open>length\<close> of the source.
\<close>

datatype json =
    JNull
  | JBool bool
  | JNum real
  | JStr string
  | JArr "json list"
  | JObj "(string \<times> json) list"

text \<open>\<^verbatim>\<open>JSON.parse(data.toString())\<close> either throws or yields a value.\<close>

datatype parsed = Unparseable | Parsed json

text \<open>
  Property access \<^verbatim>\<open>msg.k\<close> for the three keys the handler reads (\<^verbatim>\<open>type\<close>,
  \<^verbatim>\<open>username\<close>, \<^verbatim>\<open>content\<close>): \<open>None\<close> is \<^verbatim>\<open>undefined\<close>. Of a repeated key
  \<^verbatim>\<open>JSON.parse\<close> keeps the last value. Numbers, booleans, strings and arrays have no
  such property. On \<^verbatim>\<open>null\<close> the access throws; the handler below tests for
  \<open>JNull\<close> before it reads a field.
\<close>

fun field :: "json \<Rightarrow> string \<Rightarrow> json option" where
  "field (JObj kvs) k = map_of (rev kvs) k"
| "field _ k = None"

text \<open>JavaScript truthiness of a value that may be \<^verbatim>\<open>undefined\<close>.\<close>

fun truthy :: "json option \<Rightarrow> bool" where
  "truthy None = False"
| "truthy (Some JNull) = False"
| "truthy (Some (JBool b)) = b"
| "truthy (Some (JNum x)) = (x \<noteq> 0)"
| "truthy (Some (JStr s)) = (s \<noteq> [])"
| "truthy (Some (JArr xs)) = True"
| "truthy (Some (JObj kvs)) = True"

text \<open>\<^verbatim>\<open>typeof v === 'string'\<close>.\<close>

fun is_string :: "json option \<Rightarrow> bool" where
  "is_string (Some (JStr s)) = True"
| "is_string _ = False"

text \<open>The units of a string value; read only after \<open>is_string\<close> has held.\<close>

fun str_of :: "json option \<Rightarrow> string" where
  "str_of (Some (JStr s)) = s"
| "str_of _ = []"

subsection \<open>Data: sessions, chat messages, rate-limit entries, frames, connections\<close>

text \<open>\<^verbatim>\<open>interface Session { id; username; connectedAt }\<close> of \<^verbatim>\<open>session.ts\<close>.\<close>

record Session =
  sess_id :: string
  username :: string
  connectedAt :: int

text \<open>\<^verbatim>\<open>ChatMessage { id, from, content, timestamp }\<close> as \<^verbatim>\<open>wsServer.ts\<close> builds it.\<close>

record ChatMessage =
  msg_id :: string
  msg_from :: string
  content :: string
  timestamp :: int

text \<open>
  An entry \<^verbatim>\<open>{ count, last }\<close> of \<^verbatim>\<open>rateLimitMap\<close>. Timestamps are integer
  milliseconds; the counter is a natural number (the source's double counts exactly up to
  \<open>2^53\<close>, far beyond what one window can hold).
\<close>

record RateLimit =
  rl_count :: nat
  rl_last :: int

text \<open>\<^verbatim>\<open>WebSocket.readyState\<close>.\<close>

datatype readyState = CONNECTING | OPEN | CLOSING | CLOSED

datatype presence = Join | Leave

text \<open>The objects the server serialises with \<^verbatim>\<open>JSON.stringify\<close> and sends.\<close>

datatype frame =
    ErrorF string
  | WelcomeF string
  | HistoryF "ChatMessage list"
  | PresenceF presence string
  | MessageF ChatMessage

text \<open>
  One connection: the closure variable \<^verbatim>\<open>sessionId\<close> of its handlers (\<open>None\<close> is
  \<^verbatim>\<open>null\<close>), the \<^verbatim>\<open>readyState\<close> of its socket, and \<open>outbox\<close>, the frames handed to its
  \<^verbatim>\<open>send\<close> so far, in call order.
\<close>

record conn =
  sessionId :: "string option"
  readyState :: readyState
  outbox :: "frame list"

text \<open>
  The module state: \<open>sessions\<close> is the map of \<^verbatim>\<open>session.ts\<close>, \<open>rateLimitMap\<close> the map of
  \<^verbatim>\<open>wsServer.ts\<close>, \<open>messages\<close> the log of the message store, \<open>clients\<close> the set
  \<^verbatim>\<open>wss.clients\<close> with each client's connection state, keyed by the connection's identity.
\<close>

record server =
  sessions :: "string \<rightharpoonup> Session"
  rateLimitMap :: "string \<rightharpoonup> RateLimit"
  messages :: "ChatMessage list"
  clients :: "nat \<rightharpoonup> conn"

definition init :: server where
  "init = \<lparr>sessions = Map.empty, rateLimitMap = Map.empty, messages = [], clients = Map.empty\<rparr>"

subsection \<open>\<^verbatim>\<open>session.ts\<close>\<close>

definition createSession :: "string \<Rightarrow> string \<Rightarrow> int \<Rightarrow> (string \<rightharpoonup> Session) \<Rightarrow> (string \<rightharpoonup> Session)" where
  "createSession sid name now m = m(sid \<mapsto> \<lparr>sess_id = sid, username = name, connectedAt = now\<rparr>)"

definition getSession :: "(string \<rightharpoonup> Session) \<Rightarrow> string \<Rightarrow> Session option" where
  "getSession m sid = m sid"

definition removeSession :: "string \<Rightarrow> (string \<rightharpoonup> Session) \<Rightarrow> (string \<rightharpoonup> Session)" where
  "removeSession sid m = m(sid := None)"

subsection \<open>The message store\<close>

text \<open>
  Modelled from the spec: \<^verbatim>\<open>messageStore.ts\<close> (\<^verbatim>\<open>storeMessage\<close>, \<^verbatim>\<open>getMessages\<close>) is
  imported by \<^verbatim>\<open>wsServer.ts\<close> and is not among the sources. The specification's history
  store appends an accepted message at the tail of an ordered log and reads the log in
  acceptance order; the eviction it allows (and leaves optional) is not modelled.
\<close>

definition storeMessage :: "ChatMessage \<Rightarrow> ChatMessage list \<Rightarrow> ChatMessage list" where
  "storeMessage m ms = ms @ [m]"

text \<open>
  Modelled from the spec: \<^verbatim>\<open>getMessages\<close> of the missing \<^verbatim>\<open>messageStore.ts\<close> returns the
  log, oldest first.
\<close>

definition getMessages :: "ChatMessage list \<Rightarrow> ChatMessage list" where
  "getMessages ms = ms"

text \<open>\<^verbatim>\<open>xs.slice(-n)\<close> for \<open>n > 0\<close>: the last \<open>n\<close> elements, all of \<open>xs\<close> when it is shorter.\<close>

definition slice_last :: "nat \<Rightarrow> 'a list \<Rightarrow> 'a list" where
  "slice_last n xs = drop (length xs - n) xs"

subsection \<open>Sending\<close>

text \<open>\<^verbatim>\<open>ws.send(JSON.stringify(f))\<close> on connection \<open>c\<close>.\<close>

definition send :: "nat \<Rightarrow> frame \<Rightarrow> (nat \<rightharpoonup> conn) \<Rightarrow> (nat \<rightharpoonup> conn)" where
  "send c f cs = (case cs c of None \<Rightarrow> cs | Some k \<Rightarrow> cs(c \<mapsto> k\<lparr>outbox := outbox k @ [f]\<rparr>))"

definition reply :: "nat \<Rightarrow> frame \<Rightarrow> server \<Rightarrow> server" where
  "reply c f s = s\<lparr>clients := send c f (clients s)\<rparr>"

text \<open>
  \<^verbatim>\<open>broadcast\<close>: \<^verbatim>\<open>wss.clients.forEach\<close> visits every client once and sends to those
  whose \<^verbatim>\<open>readyState\<close> is \<^verbatim>\<open>OPEN\<close>. An iteration touches its own client only, so the
  loop is the pointwise update of the client set.
\<close>

definition broadcast :: "frame \<Rightarrow> (nat \<rightharpoonup> conn) \<Rightarrow> (nat \<rightharpoonup> conn)" where
  "broadcast f cs =
     (\<lambda>c. case cs c of
            None \<Rightarrow> None
          | Some k \<Rightarrow> Some (if readyState k = OPEN then k\<lparr>outbox := outbox k @ [f]\<rparr> else k))"

definition announce :: "frame \<Rightarrow> server \<Rightarrow> server" where
  "announce f s = s\<lparr>clients := broadcast f (clients s)\<rparr>"

text \<open>\<^verbatim>\<open>sendHistory\<close>.\<close>

definition sendHistory :: "nat \<Rightarrow> server \<Rightarrow> server" where
  "sendHistory c s = reply c (HistoryF (slice_last 50 (getMessages (messages s)))) s"

subsection \<open>The rate limiter of the message branch\<close>

definition RATE_LIMIT_WINDOW :: int where
  "RATE_LIMIT_WINDOW = 5000"

definition RATE_LIMIT_MAX :: nat where
  "RATE_LIMIT_MAX = 10"

text \<open>
  Lines 59 to 67 of \<^verbatim>\<open>wsServer.ts\<close>, on the entry \<open>st\<close> that \<^verbatim>\<open>rateLimitMap.get\<close> returns:
  the entry written back by \<^verbatim>\<open>rateLimitMap.set\<close>, and whether the message passes (the test
  \<^verbatim>\<open>rl.count > RATE_LIMIT_MAX\<close> is false).
\<close>

definition rate_limit :: "int \<Rightarrow> RateLimit option \<Rightarrow> RateLimit \<times> bool" where
  "rate_limit now st =
     (let rl0 = (case st of Some r \<Rightarrow> r | None \<Rightarrow> \<lparr>rl_count = 0, rl_last = now\<rparr>);
          rl1 = (if now - rl_last rl0 > RATE_LIMIT_WINDOW
                 then rl0\<lparr>rl_count := 0, rl_last := now\<rparr> else rl0);
          rl2 = rl1\<lparr>rl_count := rl_count rl1 + 1\<rparr>
      in (rl2, \<not> rl_count rl2 > RATE_LIMIT_MAX))"

subsection \<open>The \<^verbatim>\<open>message\<close> handler of a connection\<close>

text \<open>\<^verbatim>\<open>if (sessionId)\<close>: a bound, non-empty id.\<close>

definition joined :: "conn \<Rightarrow> bool" where
  "joined k = (case sessionId k of None \<Rightarrow> False | Some sid \<Rightarrow> sid \<noteq> [])"

text \<open>
  \<^verbatim>\<open>!msg.username || typeof msg.username !== 'string' || msg.username.length < 2\<close> and
  \<^verbatim>\<open>!msg.content || typeof msg.content !== 'string' || msg.content.length === 0\<close>.
\<close>

definition invalid_username :: "json option \<Rightarrow> bool" where
  "invalid_username u = (\<not> truthy u \<or> \<not> is_string u \<or> length (str_of u) < 2)"

definition invalid_content :: "json option \<Rightarrow> bool" where
  "invalid_content v = (\<not> truthy v \<or> \<not> is_string v \<or> length (str_of v) = 0)"

text \<open>
  The successful join (lines 51 to 56): bind \<^verbatim>\<open>sessionId\<close>, create the session, send
  \<^verbatim>\<open>welcome\<close>, broadcast the presence, send the history.
\<close>

definition do_join :: "nat \<Rightarrow> conn \<Rightarrow> string \<Rightarrow> int \<Rightarrow> string \<Rightarrow> server \<Rightarrow> server" where
  "do_join c k name now uuid s =
     (let s1 = s\<lparr>clients := (clients s)(c \<mapsto> k\<lparr>sessionId := Some uuid\<rparr>)\<rparr>;
          s2 = s1\<lparr>sessions := createSession uuid name now (sessions s1)\<rparr>;
          s3 = reply c (WelcomeF uuid) s2;
          s4 = announce (PresenceF Join name) s3
      in sendHistory c s4)"

text \<open>
  \<^verbatim>\<open>getSession(sessionId)?.username || 'unknown'\<close>: the fallback is taken when the
  session is absent or its name is the empty string.
\<close>

definition sender_name :: "(string \<rightharpoonup> Session) \<Rightarrow> string \<Rightarrow> string" where
  "sender_name m sid =
     (case getSession m sid of
        None \<Rightarrow> ''unknown''
      | Some sess \<Rightarrow> if username sess \<noteq> [] then username sess else ''unknown'')"

text \<open>The \<^verbatim>\<open>message\<close> branch (lines 58 to 83) of a connection bound to \<open>sid\<close>.\<close>

definition do_chat :: "nat \<Rightarrow> string \<Rightarrow> json \<Rightarrow> int \<Rightarrow> string \<Rightarrow> server \<Rightarrow> server" where
  "do_chat c sid msg now uuid s =
     (let (rl, ok) = rate_limit now (rateLimitMap s sid);
          s1 = s\<lparr>rateLimitMap := (rateLimitMap s)(sid \<mapsto> rl)\<rparr>
      in if \<not> ok then reply c (ErrorF ''Rate limit exceeded'') s1
         else if invalid_content (field msg ''content'') then reply c (ErrorF ''Empty message'') s1
         else
           (let chatMsg = \<lparr>msg_id = uuid, msg_from = sender_name (sessions s1) sid,
                           content = str_of (field msg ''content''), timestamp = now\<rparr>;
                s2 = s1\<lparr>messages := storeMessage chatMsg (messages s1)\<rparr>
            in announce (MessageF chatMsg) s2))"

text \<open>
  The body of the \<^verbatim>\<open>try\<close> after a successful parse to a value that is not \<^verbatim>\<open>null\<close>
  (lines 38 to 86), for the connection \<open>c\<close> with closure state \<open>k\<close>.
\<close>

definition dispatch :: "nat \<Rightarrow> conn \<Rightarrow> json \<Rightarrow> int \<Rightarrow> string \<Rightarrow> server \<Rightarrow> server" where
  "dispatch c k msg now uuid s =
     (let t = field msg ''type'' in
      if \<not> truthy t \<or> \<not> is_string t then reply c (ErrorF ''Missing or invalid type'') s
      else if t = Some (JStr ''join'') then
        (if joined k then reply c (ErrorF ''Already joined'') s
         else if invalid_username (field msg ''username'') then reply c (ErrorF ''Invalid username'') s
         else do_join c k (str_of (field msg ''username'')) now uuid s)
      else if t = Some (JStr ''message'') \<and> joined k then do_chat c (the (sessionId k)) msg now uuid s
      else reply c (ErrorF ''Unknown or unauthorized event'') s)"

text \<open>
  \<^verbatim>\<open>ws.on('message', ...)\<close> of connection \<open>c\<close>. A frame that does not parse, and the
  value \<^verbatim>\<open>null\<close> (whose property access throws), end in the \<^verbatim>\<open>catch\<close>. A connection that
  is not in the client set has no handler.
\<close>

definition on_message :: "nat \<Rightarrow> parsed \<Rightarrow> int \<Rightarrow> string \<Rightarrow> server \<Rightarrow> server" where
  "on_message c raw now uuid s =
     (case clients s c of
        None \<Rightarrow> s
      | Some k \<Rightarrow>
          (case raw of
             Unparseable \<Rightarrow> reply c (ErrorF ''Invalid message format'') s
           | Parsed msg \<Rightarrow>
               if msg = JNull then reply c (ErrorF ''Invalid message format'') s
               else dispatch c k msg now uuid s))"

subsection \<open>Connection, transport change and close\<close>

text \<open>
  \<^verbatim>\<open>wss.on('connection', ...)\<close>: the library has added the open socket to
  \<^verbatim>\<open>wss.clients\<close>; the handler sets \<^verbatim>\<open>sessionId = null\<close>.
\<close>

definition on_connection :: "nat \<Rightarrow> server \<Rightarrow> server" where
  "on_connection c s =
     (case clients s c of
        None \<Rightarrow> s\<lparr>clients := (clients s)(c \<mapsto> \<lparr>sessionId = None, readyState = OPEN, outbox = []\<rparr>)\<rparr>
      | Some k \<Rightarrow> s)"

text \<open>The socket of \<open>c\<close> changes its \<^verbatim>\<open>readyState\<close>; no handler of the server runs.\<close>

definition on_transport :: "nat \<Rightarrow> readyState \<Rightarrow> server \<Rightarrow> server" where
  "on_transport c r s =
     (case clients s c of
        None \<Rightarrow> s
      | Some k \<Rightarrow> s\<lparr>clients := (clients s)(c \<mapsto> k\<lparr>readyState := r\<rparr>)\<rparr>)"

text \<open>
  \<^verbatim>\<open>ws.on('close', ...)\<close> (lines 92 to 98). The library removes the socket from
  \<^verbatim>\<open>wss.clients\<close> before the handler runs; \<^verbatim>\<open>if (user)\<close> is the truthiness of the name.
\<close>

definition on_close :: "nat \<Rightarrow> server \<Rightarrow> server" where
  "on_close c s =
     (case clients s c of
        None \<Rightarrow> s
      | Some k \<Rightarrow>
          (let s0 = s\<lparr>clients := (clients s)(c := None)\<rparr> in
           if joined k then
             (let user = map_option username (getSession (sessions s0) (the (sessionId k)));
                  s1 = s0\<lparr>sessions := removeSession (the (sessionId k)) (sessions s0)\<rparr>
              in case user of
                   None \<Rightarrow> s1
                 | Some u \<Rightarrow> if u \<noteq> [] then announce (PresenceF Leave u) s1 else s1)
           else s0))"

subsection \<open>Runs of the server\<close>

datatype event =
    Connect nat
  | Recv nat parsed int string
  | Transport nat readyState
  | Close nat

fun step :: "server \<Rightarrow> event \<Rightarrow> server" where
  "step s (Connect c) = on_connection c s"
| "step s (Recv c raw now uuid) = on_message c raw now uuid s"
| "step s (Transport c r) = on_transport c r s"
| "step s (Close c) = on_close c s"

text \<open>
  What the environment guarantees of an event: a new connection is not yet a client; a
  frame, a transport change and a close come from a client; and the id generator
  \<^verbatim>\<open>uuidv4\<close> returns a non-empty id that no registered session holds.
\<close>

fun env_ok :: "server \<Rightarrow> event \<Rightarrow> bool" where
  "env_ok s (Connect c) = (clients s c = None)"
| "env_ok s (Recv c raw now uuid) = (clients s c \<noteq> None \<and> uuid \<noteq> [] \<and> sessions s uuid = None)"
| "env_ok s (Transport c r) = (clients s c \<noteq> None)"
| "env_ok s (Close c) = (clients s c \<noteq> None)"

fun run :: "event list \<Rightarrow> server \<Rightarrow> server" where
  "run [] s = s"
| "run (e # es) s = run es (step s e)"

fun valid_run :: "server \<Rightarrow> event list \<Rightarrow> bool" where
  "valid_run s [] = True"
| "valid_run s (e # es) = (env_ok s e \<and> valid_run (step s e) es)"

subsection \<open>The binding of connections to sessions\<close>

text \<open>The \<^verbatim>\<open>sessionId\<close> variable of every client: which connection is bound to which id.\<close>

definition binding :: "server \<Rightarrow> nat \<Rightarrow> string option option" where
  "binding s c = map_option sessionId (clients s c)"

text \<open>
  The invariant of the binding: a bound id is not empty, it is the key of a registered
  session with a non-empty name, and no other client is bound to it.
\<close>

definition bound_ok :: "server \<Rightarrow> bool" where
  "bound_ok s =
     (\<forall>c sid. binding s c = Some (Some sid) \<longrightarrow>
        sid \<noteq> [] \<and> (\<exists>sess. sessions s sid = Some sess \<and> username sess \<noteq> []) \<and>
        (\<forall>c'. binding s c' = Some (Some sid) \<longrightarrow> c' = c))"

subsection \<open>Concrete frames and runs\<close>

definition join_msg :: "string \<Rightarrow> json" where
  "join_msg name = JObj [(''type'', JStr ''join''), (''username'', JStr name)]"

definition chat_msg :: "string \<Rightarrow> json" where
  "chat_msg body = JObj [(''type'', JStr ''message''), (''content'', JStr body)]"

text \<open>Connection 0 opens and joins as alice at time 100; the generator returns \<open>''s1''\<close>.\<close>

definition alice_joined :: "event list" where
  "alice_joined = [Connect 0, Recv 0 (Parsed (join_msg ''alice'')) 100 ''s1'']"

text \<open>The connection of alice after her join.\<close>

definition alice_conn :: conn where
  "alice_conn = \<lparr>sessionId = Some ''s1'', readyState = OPEN,
                  outbox = [WelcomeF ''s1'', PresenceF Join ''alice'', HistoryF []]\<rparr>"

text \<open>
  Then \<open>n\<close> chat frames of alice, one per millisecond from time 100 on, each with an id
  of its own.
\<close>

definition msg_uuid :: "nat \<Rightarrow> string" where
  "msg_uuid i = ''m'' @ replicate i (CHR ''x'')"

definition alice_flood :: "nat \<Rightarrow> event list" where
  "alice_flood n =
     alice_joined @ map (\<lambda>i. Recv 0 (Parsed (chat_msg ''hi'')) (100 + int i) (msg_uuid i)) [0..<n]"

text \<open>Three clients, the middle one with a socket that is no longer open.\<close>

definition idle_conn :: "readyState \<Rightarrow> conn" where
  "idle_conn r = \<lparr>sessionId = None, readyState = r, outbox = []\<rparr>"

definition three_clients :: "nat \<rightharpoonup> conn" where
  "three_clients = [0 \<mapsto> idle_conn OPEN, 1 \<mapsto> idle_conn CLOSED, 2 \<mapsto> idle_conn OPEN]"

text \<open>Alice sends one message and her connection closes.\<close>

definition alice_left :: "event list" where
  "alice_left = alice_flood 1 @ [Close 0]"

text \<open>Alice sends two messages, then a second connection opens.\<close>

definition bob_arrives :: "event list" where
  "bob_arrives = alice_flood 2 @ [Connect 1]"

subsection \<open>The rate-limit check in the words of the specification\<close>

text \<open>
  The specification's \<^verbatim>\<open>admit(sessionId, now)\<close>, on the entry of the session: if no
  state exists, or \<^verbatim>\<open>now - windowStart >= windowDurationMs\<close>, reset to
  \<^verbatim>\<open>windowStart = now, count = 0\<close>; increment \<^verbatim>\<open>count\<close>; allowed is
  \<^verbatim>\<open>count <= maxPerWindow\<close>. It is compared with \<open>rate_limit\<close>, the check of the source.
\<close>

definition admit_spec :: "int \<Rightarrow> RateLimit option \<Rightarrow> RateLimit \<times> bool" where
  "admit_spec now st =
     (let st0 = (case st of
                   None \<Rightarrow> \<lparr>rl_count = 0, rl_last = now\<rparr>
                 | Some r \<Rightarrow> if now - rl_last r \<ge> RATE_LIMIT_WINDOW
                            then \<lparr>rl_count = 0, rl_last = now\<rparr> else r);
          st1 = st0\<lparr>rl_count := rl_count st0 + 1\<rparr>
      in (st1, rl_count st1 \<le> RATE_LIMIT_MAX))"

section \<open>Properties\<close>

subsection \<open>What each operation leaves alone\<close>

lemma reply_fields [simp]:
  "sessions (reply c f s) = sessions s"
  "rateLimitMap (reply c f s) = rateLimitMap s"
  "messages (reply c f s) = messages s"
  by (simp_all add: reply_def)

lemma announce_fields [simp]:
  "sessions (announce f s) = sessions s"
  "rateLimitMap (announce f s) = rateLimitMap s"
  "messages (announce f s) = messages s"
  by (simp_all add: announce_def)

lemma sendHistory_fields [simp]:
  "sessions (sendHistory c s) = sessions s"
  "rateLimitMap (sendHistory c s) = rateLimitMap s"
  "messages (sendHistory c s) = messages s"
  by (simp_all add: sendHistory_def)

lemma binding_reply [simp]: "binding (reply c f s) = binding s"
  by (rule ext) (simp add: binding_def reply_def send_def split: option.splits)

lemma binding_announce [simp]: "binding (announce f s) = binding s"
  by (rule ext) (simp add: binding_def announce_def broadcast_def split: option.splits)

lemma binding_sendHistory [simp]: "binding (sendHistory c s) = binding s"
  by (simp add: sendHistory_def)

lemma binding_upd_fields [simp]:
  "binding (s\<lparr>sessions := m\<rparr>) = binding s"
  "binding (s\<lparr>rateLimitMap := r\<rparr>) = binding s"
  "binding (s\<lparr>messages := l\<rparr>) = binding s"
  by (simp_all add: binding_def fun_eq_iff)

lemma do_chat_sessions [simp]: "sessions (do_chat c sid msg now uuid s) = sessions s"
  by (simp add: do_chat_def Let_def split: prod.splits)

lemma binding_do_chat [simp]: "binding (do_chat c sid msg now uuid s) = binding s"
  by (simp add: do_chat_def Let_def split: prod.splits)

lemma do_join_sessions [simp]:
  "sessions (do_join c k name now uuid s) = createSession uuid name now (sessions s)"
  by (simp add: do_join_def Let_def)

lemma binding_do_join [simp]:
  "binding (do_join c k name now uuid s) = (binding s)(c \<mapsto> Some uuid)"
  by (simp add: do_join_def Let_def) (simp add: binding_def fun_eq_iff)

lemma binding_on_close [simp]: "binding (on_close c s) = (binding s)(c := None)"
  by (rule ext)
     (simp add: on_close_def Let_def binding_def announce_def broadcast_def
           split: option.splits)

lemma sessions_on_close:
  "sessions (on_close c s) =
     (case clients s c of
        None \<Rightarrow> sessions s
      | Some k \<Rightarrow> if joined k then (sessions s)(the (sessionId k) := None) else sessions s)"
  by (simp add: on_close_def Let_def removeSession_def split: option.splits)

lemma binding_on_connection:
  "binding (on_connection c s) =
     (case clients s c of None \<Rightarrow> (binding s)(c \<mapsto> None) | Some k \<Rightarrow> binding s)"
  by (rule ext) (simp add: on_connection_def binding_def split: option.splits)

lemma sessions_on_connection [simp]: "sessions (on_connection c s) = sessions s"
  by (simp add: on_connection_def split: option.splits)

lemma binding_on_transport [simp]: "binding (on_transport c r s) = binding s"
  by (rule ext) (simp add: on_transport_def binding_def split: option.splits)

lemma sessions_on_transport [simp]: "sessions (on_transport c r s) = sessions s"
  by (simp add: on_transport_def split: option.splits)

lemma reply_eq:
  "clients s c = Some k \<Longrightarrow>
   reply c f s = s\<lparr>clients := (clients s)(c \<mapsto> k\<lparr>outbox := outbox k @ [f]\<rparr>)\<rparr>"
  by (simp add: reply_def send_def)

lemma field_not_null: "field msg key = Some v \<Longrightarrow> msg \<noteq> JNull"
  by (cases msg) simp_all

lemma invalid_username_len: "\<not> invalid_username u \<Longrightarrow> str_of u \<noteq> []"
  by (auto simp: invalid_username_def)

text \<open>The two validity tests, by cases of the value.\<close>

lemma invalid_content_iff:
  "invalid_content v = (\<forall>body. v = Some (JStr body) \<longrightarrow> body = [])"
  by (cases v rule: truthy.cases) (simp_all add: invalid_content_def)

lemma invalid_username_iff:
  "invalid_username u = (\<forall>name. u = Some (JStr name) \<longrightarrow> length name < 2)"
  by (cases u rule: truthy.cases) (auto simp: invalid_username_def)

subsection \<open>The binding invariant holds along every run\<close>

lemma bound_ok_init: "bound_ok init"
  by (simp add: bound_ok_def binding_def init_def)

lemma bound_ok_on_message:
  assumes "bound_ok s" "uuid \<noteq> []" "sessions s uuid = None"
  shows "bound_ok (on_message c raw now uuid s)"
proof (cases "clients s c")
  case None
  then show ?thesis using assms by (simp add: on_message_def)
next
  case (Some k)
  have fresh: "\<And>c'. binding s c' \<noteq> Some (Some uuid)"
    using assms unfolding bound_ok_def by fastforce
  have keep: "\<And>f. bound_ok (reply c f s)" using assms(1) by (simp add: bound_ok_def)
  have chat: "\<And>sid msg. bound_ok (do_chat c sid msg now uuid s)"
    using assms(1) by (simp add: bound_ok_def)
  have join: "\<And>name. name \<noteq> [] \<Longrightarrow> bound_ok (do_join c k name now uuid s)"
    using assms fresh Some unfolding bound_ok_def
    by (auto simp: createSession_def binding_def joined_def split: if_splits)
  show ?thesis
    using Some keep chat join invalid_username_len
    by (auto simp: on_message_def dispatch_def Let_def split: parsed.splits)
qed

lemma bound_ok_on_close:
  assumes "bound_ok s"
  shows "bound_ok (on_close c s)"
proof (cases "clients s c")
  case None
  then show ?thesis using assms by (simp add: on_close_def)
next
  case (Some k)
  show ?thesis
  proof (cases "joined k")
    case False
    then show ?thesis
      using assms Some unfolding bound_ok_def
      by (simp add: sessions_on_close)
  next
    case True
    then obtain sid where sid: "sessionId k = Some sid"
      by (auto simp: joined_def split: option.splits)
    have bc: "binding s c = Some (Some sid)"
      using Some sid by (simp add: binding_def)
    have other: "\<And>c'. c' \<noteq> c \<Longrightarrow> binding s c' \<noteq> Some (Some sid)"
      using assms bc unfolding bound_ok_def by blast
    show ?thesis
      using assms Some True sid other unfolding bound_ok_def
      by (simp add: sessions_on_close)
  qed
qed

lemma bound_ok_on_connection: "bound_ok s \<Longrightarrow> bound_ok (on_connection c s)"
  unfolding bound_ok_def
  by (auto simp: binding_on_connection split: option.splits if_splits)

lemma bound_ok_on_transport: "bound_ok s \<Longrightarrow> bound_ok (on_transport c r s)"
  unfolding bound_ok_def by simp

lemma bound_ok_step: "bound_ok s \<Longrightarrow> env_ok s e \<Longrightarrow> bound_ok (step s e)"
  by (cases e)
     (simp_all add: bound_ok_on_connection bound_ok_on_message bound_ok_on_transport
        bound_ok_on_close)

lemma bound_ok_run: "bound_ok s \<Longrightarrow> valid_run s es \<Longrightarrow> bound_ok (run es s)"
  by (induction es arbitrary: s) (simp_all add: bound_ok_step)

lemma bound_ok_reachable: "valid_run init es \<Longrightarrow> bound_ok (run es init)"
  by (rule bound_ok_run [OF bound_ok_init])

lemma bound_joined:
  assumes "valid_run init es" and "clients (run es init) c = Some k" and "sessionId k = Some sid"
  shows "joined k \<and> (\<exists>sess. sessions (run es init) sid = Some sess \<and> username sess \<noteq> [])"
proof -
  have "binding (run es init) c = Some (Some sid)"
    using assms(2,3) by (simp add: binding_def)
  with bound_ok_reachable [OF assms(1)] show ?thesis
    using assms(3) unfolding bound_ok_def joined_def by fastforce
qed

subsection \<open>Facts about the concrete runs\<close>

lemma alice_joined_valid: "valid_run init alice_joined"
  by code_simp

lemma alice_joined_conn: "clients (run alice_joined init) 0 = Some alice_conn"
  by code_simp

subsection \<open>The message branch, case by case\<close>

lemma rate_limit_None: "rate_limit now None = (\<lparr>rl_count = 1, rl_last = now\<rparr>, True)"
  by (simp add: rate_limit_def RATE_LIMIT_WINDOW_def RATE_LIMIT_MAX_def)

lemma rate_limit_same_window:
  "now - rl_last r \<le> RATE_LIMIT_WINDOW \<Longrightarrow>
   rate_limit now (Some r) = (r\<lparr>rl_count := rl_count r + 1\<rparr>, rl_count r + 1 \<le> RATE_LIMIT_MAX)"
  by (simp add: rate_limit_def not_less)

lemma rate_limit_rolled:
  "RATE_LIMIT_WINDOW < now - rl_last r \<Longrightarrow>
   rate_limit now (Some r) = (\<lparr>rl_count = 1, rl_last = now\<rparr>, True)"
  by (simp add: rate_limit_def RATE_LIMIT_MAX_def)

lemma rate_limit_passes: "snd (rate_limit now st) = (rl_count (fst (rate_limit now st)) \<le> RATE_LIMIT_MAX)"
  by (simp add: rate_limit_def Let_def not_less)

lemma rate_limit_counts: "1 \<le> rl_count (fst (rate_limit now st))"
  by (simp add: rate_limit_def Let_def)

lemma on_message_chat:
  assumes "clients s c = Some k" and "joined k" and "sessionId k = Some sid"
    and "field msg ''type'' = Some (JStr ''message'')"
  shows "on_message c (Parsed msg) now uuid s = do_chat c sid msg now uuid s"
  using assms field_not_null [OF assms(4)]
  by (simp add: on_message_def dispatch_def)

lemma do_chat_rejected:
  assumes "clients s c = Some k" and "\<not> snd (rate_limit now (rateLimitMap s sid))"
  shows "do_chat c sid msg now uuid s =
           s\<lparr>rateLimitMap := (rateLimitMap s)(sid \<mapsto> fst (rate_limit now (rateLimitMap s sid))),
             clients := (clients s)(c \<mapsto> k\<lparr>outbox := outbox k @ [ErrorF ''Rate limit exceeded'']\<rparr>)\<rparr>"
  using assms
  by (simp add: do_chat_def Let_def case_prod_beta reply_def send_def)

lemma do_chat_empty:
  assumes "clients s c = Some k" and "snd (rate_limit now (rateLimitMap s sid))"
    and "invalid_content (field msg ''content'')"
  shows "do_chat c sid msg now uuid s =
           s\<lparr>rateLimitMap := (rateLimitMap s)(sid \<mapsto> fst (rate_limit now (rateLimitMap s sid))),
             clients := (clients s)(c \<mapsto> k\<lparr>outbox := outbox k @ [ErrorF ''Empty message'']\<rparr>)\<rparr>"
  using assms
  by (simp add: do_chat_def Let_def case_prod_beta reply_def send_def)

lemma do_chat_accepted:
  assumes "snd (rate_limit now (rateLimitMap s sid))"
    and "\<not> invalid_content (field msg ''content'')"
  shows "do_chat c sid msg now uuid s =
           s\<lparr>rateLimitMap := (rateLimitMap s)(sid \<mapsto> fst (rate_limit now (rateLimitMap s sid))),
             messages := messages s @
               [\<lparr>msg_id = uuid, msg_from = sender_name (sessions s) sid,
                 content = str_of (field msg ''content''), timestamp = now\<rparr>],
             clients := broadcast
               (MessageF \<lparr>msg_id = uuid, msg_from = sender_name (sessions s) sid,
                          content = str_of (field msg ''content''), timestamp = now\<rparr>)
               (clients s)\<rparr>"
  using assms
  by (simp add: do_chat_def Let_def case_prod_beta announce_def storeMessage_def)

lemma do_chat_rateLimitMap:
  "rateLimitMap (do_chat c sid msg now uuid s) =
     (rateLimitMap s)(sid \<mapsto> fst (rate_limit now (rateLimitMap s sid)))"
  by (simp add: do_chat_def Let_def case_prod_beta)

lemma do_chat_messages:
  "messages (do_chat c sid msg now uuid s) \<noteq> messages s \<Longrightarrow> snd (rate_limit now (rateLimitMap s sid))"
  by (auto simp: do_chat_def Let_def case_prod_beta split: if_splits)

lemma do_join_rateLimitMap [simp]: "rateLimitMap (do_join c k name now uuid s) = rateLimitMap s"
  by (simp add: do_join_def Let_def)

lemma do_join_messages [simp]: "messages (do_join c k name now uuid s) = messages s"
  by (simp add: do_join_def Let_def)

text \<open>An event other than a chat frame of a joined client leaves both untouched.\<close>

lemma on_message_cases:
  "(\<exists>k sid msg. raw = Parsed msg \<and> clients s c = Some k \<and> joined k \<and> sessionId k = Some sid \<and>
       on_message c raw now uuid s = do_chat c sid msg now uuid s) \<or>
   (rateLimitMap (on_message c raw now uuid s) = rateLimitMap s \<and>
    messages (on_message c raw now uuid s) = messages s)"
  by (auto simp: on_message_def dispatch_def Let_def joined_def
           split: option.splits parsed.splits)

lemma on_close_keeps [simp]:
  "rateLimitMap (on_close c s) = rateLimitMap s"
  "messages (on_close c s) = messages s"
  by (simp_all add: on_close_def Let_def split: option.splits)

lemma on_connection_keeps [simp]:
  "rateLimitMap (on_connection c s) = rateLimitMap s"
  "messages (on_connection c s) = messages s"
  by (simp_all add: on_connection_def split: option.splits)

lemma on_transport_keeps [simp]:
  "rateLimitMap (on_transport c r s) = rateLimitMap s"
  "messages (on_transport c r s) = messages s"
  by (simp_all add: on_transport_def split: option.splits)

text \<open>The history is an append-only log: an event adds at most one message, at the tail.\<close>

lemma log_append_only:
  "messages (step s e) = messages s \<or> (\<exists>m. messages (step s e) = messages s @ [m])"
proof (cases e)
  case (Recv c raw now uuid)
  from on_message_cases [of raw s c now uuid] show ?thesis
  proof
    assume "\<exists>k sid msg. raw = Parsed msg \<and> clients s c = Some k \<and> joined k \<and>
        sessionId k = Some sid \<and> on_message c raw now uuid s = do_chat c sid msg now uuid s"
    then obtain sid msg where "on_message c raw now uuid s = do_chat c sid msg now uuid s"
      by blast
    then show ?thesis
      using Recv
      by (simp add: do_chat_def Let_def case_prod_beta storeMessage_def)
  next
    assume "rateLimitMap (on_message c raw now uuid s) = rateLimitMap s \<and>
        messages (on_message c raw now uuid s) = messages s"
    then show ?thesis using Recv by simp
  qed
qed simp_all

lemma log_grows: "prefix (messages s) (messages (run es s))"
proof (induction es arbitrary: s)
  case Nil
  then show ?case by simp
next
  case (Cons e es)
  have "prefix (messages s) (messages (step s e))"
    using log_append_only [of s e] by auto
  with Cons.IH [of "step s e"] show ?case
    by (auto intro: prefix_order.trans)
qed

subsection \<open>A chat frame before the join\<close>

text \<open>
  Claim C8. A frame of type \<^verbatim>\<open>message\<close> on a connection whose \<^verbatim>\<open>sessionId\<close> is still
  \<^verbatim>\<open>null\<close> changes the server state in one place only: the error frame
  \<open>''Unknown or unauthorized event''\<close> is appended to the frames sent to that connection.
  The session registry, the rate-limit map, the history and every other client are as
  before, so nothing is broadcast and nothing is stored.
\<close>

theorem message_before_join_rejected:
  assumes "clients s c = Some k" and "sessionId k = None"
    and "field msg ''type'' = Some (JStr ''message'')"
  shows "on_message c (Parsed msg) now uuid s =
           s\<lparr>clients := (clients s)(c \<mapsto>
               k\<lparr>outbox := outbox k @ [ErrorF ''Unknown or unauthorized event'']\<rparr>)\<rparr>"
proof -
  have "\<not> joined k" using assms(2) by (simp add: joined_def)
  then have "on_message c (Parsed msg) now uuid s =
      reply c (ErrorF ''Unknown or unauthorized event'') s"
    using assms(1,3) field_not_null [OF assms(3)]
    by (simp add: on_message_def dispatch_def)
  then show ?thesis by (simp add: reply_eq [OF assms(1)])
qed

theorem message_before_join_rejected_witness:
  "on_message 0 (Parsed (chat_msg ''hi'')) 100 ''m1'' (run [Connect 0] init) =
     (run [Connect 0] init)\<lparr>clients := (clients (run [Connect 0] init))(0 \<mapsto>
        \<lparr>sessionId = None, readyState = OPEN,
         outbox = [ErrorF ''Unknown or unauthorized event'']\<rparr>)\<rparr>"
proof -
  have h1: "clients (run [Connect 0] init) 0 = Some (idle_conn OPEN)"
    by code_simp
  have h2: "sessionId (idle_conn OPEN) = None"
    by (simp add: idle_conn_def)
  have h3: "field (chat_msg ''hi'') ''type'' = Some (JStr ''message'')"
    by (simp add: chat_msg_def)
  show ?thesis
    using message_before_join_rejected [OF h1 h2 h3, of 100 "''m1''"]
    by (simp add: idle_conn_def)
qed

subsection \<open>A second join\<close>

text \<open>
  Claim C6. Along every run, a \<^verbatim>\<open>join\<close> frame on a connection that is bound to a
  session id changes the server state in one place only: the error frame
  \<open>''Already joined''\<close> is appended to the frames sent to that connection. The session
  registry (hence the id, name and join time of the original session), the rate-limit
  map, the history, the binding and every other client are as before: no session is
  created and no welcome, presence or history frame is sent.
\<close>

theorem second_join_rejected:
  assumes "valid_run init es" and "clients (run es init) c = Some k"
    and "sessionId k = Some sid" and "field msg ''type'' = Some (JStr ''join'')"
  shows "on_message c (Parsed msg) now uuid (run es init) =
           (run es init)\<lparr>clients := (clients (run es init))(c \<mapsto>
               k\<lparr>outbox := outbox k @ [ErrorF ''Already joined'']\<rparr>)\<rparr>"
proof -
  have "joined k" using bound_joined [OF assms(1,2,3)] by simp
  then have "on_message c (Parsed msg) now uuid (run es init) =
      reply c (ErrorF ''Already joined'') (run es init)"
    using assms(2,4) field_not_null [OF assms(4)]
    by (simp add: on_message_def dispatch_def)
  then show ?thesis by (simp add: reply_eq [OF assms(2)])
qed

theorem second_join_rejected_witness:
  "on_message 0 (Parsed (join_msg ''bob'')) 200 ''s2'' (run alice_joined init) =
     (run alice_joined init)\<lparr>clients := (clients (run alice_joined init))(0 \<mapsto>
        \<lparr>sessionId = Some ''s1'', readyState = OPEN,
         outbox = [WelcomeF ''s1'', PresenceF Join ''alice'', HistoryF [],
                   ErrorF ''Already joined'']\<rparr>)\<rparr>"
proof -
  have h3: "sessionId alice_conn = Some ''s1''"
    by (simp add: alice_conn_def)
  have h4: "field (join_msg ''bob'') ''type'' = Some (JStr ''join'')"
    by (simp add: join_msg_def)
  show ?thesis
    using second_join_rejected [OF alice_joined_valid alice_joined_conn h3 h4, of 200 "''s2''"]
    by (simp add: alice_conn_def)
qed

subsection \<open>Broadcast skips a closed socket and reaches all the others\<close>

text \<open>
  Claim C9. Let the client set be finite, let the socket of one client \<open>c0\<close> be not
  open and the sockets of all other clients be open. Then \<^verbatim>\<open>broadcast\<close> returns (it is
  a total function: no error), it keeps the client set, it leaves \<open>c0\<close> as it is, it
  appends the frame to the frames sent to every other client, and the clients that were
  sent the frame are all but one.
\<close>

theorem broadcast_isolation:
  assumes "finite (dom cs)" and "cs c0 = Some k0" and "readyState k0 \<noteq> OPEN"
    and "\<forall>c k. c \<noteq> c0 \<longrightarrow> cs c = Some k \<longrightarrow> readyState k = OPEN"
  shows "dom (broadcast f cs) = dom cs \<and>
         broadcast f cs c0 = Some k0 \<and>
         (\<forall>c k. c \<noteq> c0 \<longrightarrow> cs c = Some k \<longrightarrow>
            broadcast f cs c = Some (k\<lparr>outbox := outbox k @ [f]\<rparr>)) \<and>
         card {c. \<exists>k. cs c = Some k \<and> broadcast f cs c = Some (k\<lparr>outbox := outbox k @ [f]\<rparr>)}
           = card (dom cs) - 1"
proof -
  have d: "dom (broadcast f cs) = dom cs"
    by (auto simp: broadcast_def split: option.splits)
  have c0: "broadcast f cs c0 = Some k0"
    using assms(2,3) by (simp add: broadcast_def)
  have others: "\<forall>c k. c \<noteq> c0 \<longrightarrow> cs c = Some k \<longrightarrow>
      broadcast f cs c = Some (k\<lparr>outbox := outbox k @ [f]\<rparr>)"
    using assms(4) by (simp add: broadcast_def)
  have neq: "k0\<lparr>outbox := outbox k0 @ [f]\<rparr> \<noteq> k0"
  proof
    assume "k0\<lparr>outbox := outbox k0 @ [f]\<rparr> = k0"
    then have "outbox (k0\<lparr>outbox := outbox k0 @ [f]\<rparr>) = outbox k0" by simp
    then show False by simp
  qed
  have "{c. \<exists>k. cs c = Some k \<and> broadcast f cs c = Some (k\<lparr>outbox := outbox k @ [f]\<rparr>)}
      = dom cs - {c0}"
    using others c0 assms(2) neq by (auto simp: dom_def)
  moreover have "c0 \<in> dom cs" using assms(2) by (simp add: dom_def)
  ultimately show ?thesis using d c0 others assms(1) by simp
qed

theorem broadcast_isolation_witness:
  "dom (broadcast (PresenceF Join ''alice'') three_clients) = {0, 1, 2} \<and>
   broadcast (PresenceF Join ''alice'') three_clients 1 = Some (idle_conn CLOSED) \<and>
   broadcast (PresenceF Join ''alice'') three_clients 0 =
     Some \<lparr>sessionId = None, readyState = OPEN, outbox = [PresenceF Join ''alice'']\<rparr> \<and>
   broadcast (PresenceF Join ''alice'') three_clients 2 =
     Some \<lparr>sessionId = None, readyState = OPEN, outbox = [PresenceF Join ''alice'']\<rparr> \<and>
   card {c. \<exists>k. three_clients c = Some k \<and>
               broadcast (PresenceF Join ''alice'') three_clients c =
                 Some (k\<lparr>outbox := outbox k @ [PresenceF Join ''alice'']\<rparr>)} = 2"
proof -
  have h1: "finite (dom three_clients)"
    by (simp add: three_clients_def)
  have h2: "three_clients 1 = Some (idle_conn CLOSED)"
    by (simp add: three_clients_def)
  have h3: "readyState (idle_conn CLOSED) \<noteq> OPEN"
    by (simp add: idle_conn_def)
  have h4: "\<forall>c k. c \<noteq> 1 \<longrightarrow> three_clients c = Some k \<longrightarrow> readyState k = OPEN"
    by (auto simp: three_clients_def idle_conn_def split: if_splits)
  have d: "dom three_clients = {0, 1, 2}"
    by (auto simp: three_clients_def)
  have k0: "three_clients 0 = Some (idle_conn OPEN)" and k2: "three_clients 2 = Some (idle_conn OPEN)"
    by (simp_all add: three_clients_def)
  show ?thesis
    using broadcast_isolation [OF h1 h2 h3 h4, of "PresenceF Join ''alice''"] d k0 k2
    by (simp add: idle_conn_def)
qed

subsection \<open>A bound session id is registered until the connection closes\<close>







subsection \<open>Facts about the run of ten messages\<close>

lemma flood10_valid: "valid_run init (alice_flood 10)"
  by code_simp

lemma flood10_rl: "rateLimitMap (run (alice_flood 10) init) ''s1'' = Some \<lparr>rl_count = 10, rl_last = 100\<rparr>"
  by code_simp

lemma flood10_conn:
  "clients (run (alice_flood 10) init) 0 = Some (the (clients (run (alice_flood 10) init) 0))"
  by code_simp

lemma flood10_sid: "sessionId (the (clients (run (alice_flood 10) init) 0)) = Some ''s1''"
  by code_simp

subsection \<open>Rejection past the limit, until the window of the source rolls over\<close>

text \<open>
  Claim C1, as the code has it. Along every run, let a client be bound to a session whose
  rate-limit entry has counted \<open>RATE_LIMIT_MAX\<close> (10) or more message frames in the
  current window (every message frame of the session adds one to the count, see
  \<open>do_chat_rateLimitMap\<close>). A further message frame that arrives no later than
  \<open>RATE_LIMIT_WINDOW\<close> (5000 ms) after the start of the window is counted and answered
  with the error frame \<open>''Rate limit exceeded''\<close>, sent to the sender only: the history,
  the session registry and every other client are unchanged, so nothing is stored and
  nothing is broadcast; the entry keeps its start and a count above the limit, so the same
  holds for the frame after it. The window of the source rolls over only when more than
  \<open>RATE_LIMIT_WINDOW\<close> have passed since its start; the next message frame then starts
  a new window with count 1 and passes the limiter: with valid content it is appended to
  the history and broadcast (with invalid content it gets \<open>''Empty message''\<close>).
\<close>

theorem rate_limited_until_rollover:
  assumes "valid_run init es" and "clients (run es init) c = Some k"
    and "sessionId k = Some sid" and "field msg ''type'' = Some (JStr ''message'')"
    and "rateLimitMap (run es init) sid = Some rl" and "RATE_LIMIT_MAX \<le> rl_count rl"
  shows "(now - rl_last rl \<le> RATE_LIMIT_WINDOW \<longrightarrow>
            on_message c (Parsed msg) now uuid (run es init) =
              (run es init)
                \<lparr>rateLimitMap := (rateLimitMap (run es init))(sid \<mapsto> rl\<lparr>rl_count := rl_count rl + 1\<rparr>),
                 clients := (clients (run es init))(c \<mapsto>
                    k\<lparr>outbox := outbox k @ [ErrorF ''Rate limit exceeded'']\<rparr>)\<rparr>) \<and>
         (RATE_LIMIT_WINDOW < now - rl_last rl \<longrightarrow>
            on_message c (Parsed msg) now uuid (run es init) =
              (if invalid_content (field msg ''content'')
               then (run es init)
                \<lparr>rateLimitMap := (rateLimitMap (run es init))(sid \<mapsto> \<lparr>rl_count = 1, rl_last = now\<rparr>),
                 clients := (clients (run es init))(c \<mapsto>
                    k\<lparr>outbox := outbox k @ [ErrorF ''Empty message'']\<rparr>)\<rparr>
               else (run es init)
                \<lparr>rateLimitMap := (rateLimitMap (run es init))(sid \<mapsto> \<lparr>rl_count = 1, rl_last = now\<rparr>),
                 messages := messages (run es init) @
                   [\<lparr>msg_id = uuid, msg_from = sender_name (sessions (run es init)) sid,
                     content = str_of (field msg ''content''), timestamp = now\<rparr>],
                 clients := broadcast
                   (MessageF \<lparr>msg_id = uuid, msg_from = sender_name (sessions (run es init)) sid,
                              content = str_of (field msg ''content''), timestamp = now\<rparr>)
                   (clients (run es init))\<rparr>))"
proof -
  let ?s = "run es init"
  have j: "joined k" using bound_joined [OF assms(1,2,3)] by simp
  have chat: "on_message c (Parsed msg) now uuid ?s = do_chat c sid msg now uuid ?s"
    by (rule on_message_chat [OF assms(2) j assms(3,4)])
  have same: "now - rl_last rl \<le> RATE_LIMIT_WINDOW \<Longrightarrow>
      rate_limit now (rateLimitMap ?s sid) = (rl\<lparr>rl_count := rl_count rl + 1\<rparr>, False)"
    using assms(5,6) by (simp add: rate_limit_same_window)
  have rolled: "RATE_LIMIT_WINDOW < now - rl_last rl \<Longrightarrow>
      rate_limit now (rateLimitMap ?s sid) = (\<lparr>rl_count = 1, rl_last = now\<rparr>, True)"
    using assms(5) by (simp add: rate_limit_rolled)
  show ?thesis
  proof (intro conjI impI)
    assume "now - rl_last rl \<le> RATE_LIMIT_WINDOW"
    from same [OF this] show "on_message c (Parsed msg) now uuid ?s =
        ?s\<lparr>rateLimitMap := (rateLimitMap ?s)(sid \<mapsto> rl\<lparr>rl_count := rl_count rl + 1\<rparr>),
           clients := (clients ?s)(c \<mapsto>
              k\<lparr>outbox := outbox k @ [ErrorF ''Rate limit exceeded'']\<rparr>)\<rparr>"
      using do_chat_rejected [OF assms(2), of now sid msg uuid] chat by simp
  next
    assume "RATE_LIMIT_WINDOW < now - rl_last rl"
    from rolled [OF this] show "on_message c (Parsed msg) now uuid ?s =
        (if invalid_content (field msg ''content'')
         then ?s\<lparr>rateLimitMap := (rateLimitMap ?s)(sid \<mapsto> \<lparr>rl_count = 1, rl_last = now\<rparr>),
                 clients := (clients ?s)(c \<mapsto>
                    k\<lparr>outbox := outbox k @ [ErrorF ''Empty message'']\<rparr>)\<rparr>
         else ?s\<lparr>rateLimitMap := (rateLimitMap ?s)(sid \<mapsto> \<lparr>rl_count = 1, rl_last = now\<rparr>),
                 messages := messages ?s @
                   [\<lparr>msg_id = uuid, msg_from = sender_name (sessions ?s) sid,
                     content = str_of (field msg ''content''), timestamp = now\<rparr>],
                 clients := broadcast
                   (MessageF \<lparr>msg_id = uuid, msg_from = sender_name (sessions ?s) sid,
                              content = str_of (field msg ''content''), timestamp = now\<rparr>)
                   (clients ?s)\<rparr>)"
      using do_chat_empty [OF assms(2), of now sid msg uuid]
        do_chat_accepted [of now ?s sid msg c uuid] chat
      by simp
  qed
qed

text \<open>
  The claim as stated fails at the end of the window: ten frames are counted in the
  window that started at 100, a window of 5000 ms has rolled over at time 5100 (the check
  of the specification admits there), and the message frame that arrives at 5100 is still
  rejected and not stored.
\<close>

theorem rejected_at_window_end:
  "valid_run init (alice_flood 10) \<and>
   sessionId (the (clients (run (alice_flood 10) init) 0)) = Some ''s1'' \<and>
   rateLimitMap (run (alice_flood 10) init) ''s1'' = Some \<lparr>rl_count = 10, rl_last = 100\<rparr> \<and>
   (100::int) + RATE_LIMIT_WINDOW \<le> 5100 \<and>
   admit_spec 5100 (rateLimitMap (run (alice_flood 10) init) ''s1'') =
     (\<lparr>rl_count = 1, rl_last = 5100\<rparr>, True) \<and>
   messages (on_message 0 (Parsed (chat_msg ''more'')) 5100 ''n1'' (run (alice_flood 10) init)) =
     messages (run (alice_flood 10) init) \<and>
   outbox (the (clients
       (on_message 0 (Parsed (chat_msg ''more'')) 5100 ''n1'' (run (alice_flood 10) init)) 0)) =
     outbox (the (clients (run (alice_flood 10) init) 0)) @ [ErrorF ''Rate limit exceeded'']"
  by code_simp

theorem rate_limited_until_rollover_witness:
  "rateLimitMap (on_message 0 (Parsed (chat_msg ''more'')) 5100 ''n1'' (run (alice_flood 10) init)) ''s1''
     = Some \<lparr>rl_count = 11, rl_last = 100\<rparr> \<and>
   messages (on_message 0 (Parsed (chat_msg ''more'')) 5100 ''n1'' (run (alice_flood 10) init))
     = messages (run (alice_flood 10) init) \<and>
   clients (on_message 0 (Parsed (chat_msg ''more'')) 5100 ''n1'' (run (alice_flood 10) init))
     = (clients (run (alice_flood 10) init))(0 \<mapsto>
         (the (clients (run (alice_flood 10) init) 0))
           \<lparr>outbox := outbox (the (clients (run (alice_flood 10) init) 0)) @
              [ErrorF ''Rate limit exceeded'']\<rparr>) \<and>
   rateLimitMap (on_message 0 (Parsed (chat_msg ''more'')) 5101 ''n1'' (run (alice_flood 10) init)) ''s1''
     = Some \<lparr>rl_count = 1, rl_last = 5101\<rparr> \<and>
   messages (on_message 0 (Parsed (chat_msg ''more'')) 5101 ''n1'' (run (alice_flood 10) init))
     = messages (run (alice_flood 10) init) @
         [\<lparr>msg_id = ''n1'', msg_from = ''alice'', content = ''more'', timestamp = 5101\<rparr>]"
proof -
  have h4: "field (chat_msg ''more'') ''type'' = Some (JStr ''message'')"
    by (simp add: chat_msg_def)
  have h6: "RATE_LIMIT_MAX \<le> rl_count \<lparr>rl_count = 10, rl_last = 100\<rparr>"
    by (simp add: RATE_LIMIT_MAX_def)
  have valid: "\<not> invalid_content (field (chat_msg ''more'') ''content'')"
    and body: "str_of (field (chat_msg ''more'') ''content'') = ''more''"
    by (simp_all add: chat_msg_def invalid_content_def)
  have name: "sender_name (sessions (run (alice_flood 10) init)) ''s1'' = ''alice''"
    by code_simp
  note inst = rate_limited_until_rollover
      [OF flood10_valid flood10_conn flood10_sid h4 flood10_rl h6, of _ "''n1''"]
  have early: "(5100::int) - rl_last \<lparr>rl_count = 10, rl_last = 100\<rparr> \<le> RATE_LIMIT_WINDOW"
    and late: "RATE_LIMIT_WINDOW < (5101::int) - rl_last \<lparr>rl_count = 10, rl_last = 100\<rparr>"
    by (simp_all add: RATE_LIMIT_WINDOW_def)
  from inst [of 5100] early
  have a: "on_message 0 (Parsed (chat_msg ''more'')) 5100 ''n1'' (run (alice_flood 10) init) =
      (run (alice_flood 10) init)
        \<lparr>rateLimitMap := (rateLimitMap (run (alice_flood 10) init))(''s1'' \<mapsto>
            \<lparr>rl_count = 10, rl_last = 100\<rparr>\<lparr>rl_count := rl_count \<lparr>rl_count = 10, rl_last = 100\<rparr> + 1\<rparr>),
         clients := (clients (run (alice_flood 10) init))(0 \<mapsto>
            (the (clients (run (alice_flood 10) init) 0))
              \<lparr>outbox := outbox (the (clients (run (alice_flood 10) init) 0)) @
                 [ErrorF ''Rate limit exceeded'']\<rparr>)\<rparr>"
    by blast
  from inst [of 5101] late valid
  have b: "on_message 0 (Parsed (chat_msg ''more'')) 5101 ''n1'' (run (alice_flood 10) init) =
      (run (alice_flood 10) init)
        \<lparr>rateLimitMap := (rateLimitMap (run (alice_flood 10) init))(''s1'' \<mapsto> \<lparr>rl_count = 1, rl_last = 5101\<rparr>),
         messages := messages (run (alice_flood 10) init) @
           [\<lparr>msg_id = ''n1'', msg_from = sender_name (sessions (run (alice_flood 10) init)) ''s1'',
             content = str_of (field (chat_msg ''more'') ''content''), timestamp = 5101\<rparr>],
         clients := broadcast
           (MessageF \<lparr>msg_id = ''n1'', msg_from = sender_name (sessions (run (alice_flood 10) init)) ''s1'',
                      content = str_of (field (chat_msg ''more'') ''content''), timestamp = 5101\<rparr>)
           (clients (run (alice_flood 10) init))\<rparr>"
    by presburger
  show ?thesis
    unfolding a b by (simp add: name body)
qed

subsection \<open>The slice of the history\<close>

lemma slice_last_length: "length (slice_last n xs) = min n (length xs)"
  by (simp add: slice_last_def)

lemma slice_last_suffix: "suffix (slice_last n xs) xs"
  by (simp add: slice_last_def suffix_drop)

lemma slice_last_all: "length xs \<le> n \<Longrightarrow> slice_last n xs = xs"
  by (simp add: slice_last_def)

subsection \<open>A successful join: welcome, presence, history\<close>

text \<open>
  Claim C2. A \<^verbatim>\<open>join\<close> frame with a valid name on a client that has not joined binds
  the client to the generated id and sends it, in this order, the welcome frame with that
  id, the presence frame of the broadcast (when its socket is open), and one history
  frame. The history frame holds the last 50 entries of the log as it was before the
  event (all of it when it is shorter), in the order of the log, which is the order of
  acceptance since \<open>storeMessage\<close> appends at the tail (\<open>log_append_only\<close>); the
  join itself stores nothing. A message accepted later is not in that log, hence not in
  the frame. A name is valid when it is a string of length 2 or more
  (\<open>invalid_username_iff\<close>).
\<close>

theorem join_welcome_then_history:
  assumes "clients s c = Some k" and "\<not> joined k"
    and "field msg ''type'' = Some (JStr ''join'')"
    and "\<not> invalid_username (field msg ''username'')"
  shows "\<exists>k'. clients (on_message c (Parsed msg) now uuid s) c = Some k' \<and>
           sessionId k' = Some uuid \<and>
           outbox k' = outbox k @ [WelcomeF uuid] @
             (if readyState k = OPEN then [PresenceF Join (str_of (field msg ''username''))] else []) @
             [HistoryF (slice_last 50 (getMessages (messages s)))] \<and>
           length (slice_last 50 (getMessages (messages s))) = min 50 (length (messages s)) \<and>
           suffix (slice_last 50 (getMessages (messages s))) (messages s) \<and>
           messages (on_message c (Parsed msg) now uuid s) = messages s"
proof -
  have "on_message c (Parsed msg) now uuid s =
      do_join c k (str_of (field msg ''username'')) now uuid s"
    using assms field_not_null [OF assms(3)]
    by (simp add: on_message_def dispatch_def)
  then show ?thesis
    by (simp add: do_join_def Let_def sendHistory_def reply_def send_def announce_def
          broadcast_def getMessages_def slice_last_length slice_last_suffix)
qed

theorem join_welcome_then_history_witness:
  "clients (on_message 1 (Parsed (join_msg ''bob'')) 300 ''s2'' (run bob_arrives init)) 1 =
     Some \<lparr>sessionId = Some ''s2'', readyState = OPEN,
           outbox = [WelcomeF ''s2'', PresenceF Join ''bob'',
                     HistoryF [\<lparr>msg_id = ''m'', msg_from = ''alice'', content = ''hi'', timestamp = 100\<rparr>,
                               \<lparr>msg_id = ''mx'', msg_from = ''alice'', content = ''hi'', timestamp = 101\<rparr>]]\<rparr> \<and>
   messages (on_message 1 (Parsed (join_msg ''bob'')) 300 ''s2'' (run bob_arrives init)) =
     messages (run bob_arrives init)"
proof -
  have h1: "clients (run bob_arrives init) 1 = Some (idle_conn OPEN)"
    by code_simp
  have h2: "\<not> joined (idle_conn OPEN)"
    by (simp add: joined_def idle_conn_def)
  have h3: "field (join_msg ''bob'') ''type'' = Some (JStr ''join'')"
    by (simp add: join_msg_def)
  have h4: "\<not> invalid_username (field (join_msg ''bob'') ''username'')"
    by (simp add: join_msg_def invalid_username_def)
  have name: "str_of (field (join_msg ''bob'') ''username'') = ''bob''"
    by (simp add: join_msg_def)
  have log: "slice_last 50 (getMessages (messages (run bob_arrives init))) =
      [\<lparr>msg_id = ''m'', msg_from = ''alice'', content = ''hi'', timestamp = 100\<rparr>,
       \<lparr>msg_id = ''mx'', msg_from = ''alice'', content = ''hi'', timestamp = 101\<rparr>]"
    by code_simp
  from join_welcome_then_history [OF h1 h2 h3 h4, of 300 "''s2''"]
  obtain k' where
    k: "clients (on_message 1 (Parsed (join_msg ''bob'')) 300 ''s2'' (run bob_arrives init)) 1 = Some k'"
    and sid: "sessionId k' = Some ''s2''"
    and out: "outbox k' = outbox (idle_conn OPEN) @ [WelcomeF ''s2''] @
        (if readyState (idle_conn OPEN) = OPEN
         then [PresenceF Join (str_of (field (join_msg ''bob'') ''username''))] else []) @
        [HistoryF (slice_last 50 (getMessages (messages (run bob_arrives init))))]"
    and keep: "messages (on_message 1 (Parsed (join_msg ''bob'')) 300 ''s2'' (run bob_arrives init)) =
        messages (run bob_arrives init)"
    by blast
  have "readyState (the (clients (on_message 1 (Parsed (join_msg ''bob'')) 300 ''s2'' (run bob_arrives init)) 1)) = OPEN"
    by code_simp
  then have rs: "readyState k' = OPEN"
    using k by simp
  have "k' = \<lparr>sessionId = Some ''s2'', readyState = OPEN,
           outbox = [WelcomeF ''s2'', PresenceF Join ''bob'',
                     HistoryF [\<lparr>msg_id = ''m'', msg_from = ''alice'', content = ''hi'', timestamp = 100\<rparr>,
                               \<lparr>msg_id = ''mx'', msg_from = ''alice'', content = ''hi'', timestamp = 101\<rparr>]]\<rparr>"
    using sid out rs by (cases k') (simp add: name log idle_conn_def)
  with k keep show ?thesis by simp
qed

subsection \<open>A message frame without content is counted by the rate limiter\<close>

text \<open>
  Claim C3, as the code has it. The handler runs the rate limiter before it looks at the
  content. Along every run, a message frame of a bound client whose content is missing,
  not a string or empty (\<open>invalid_content_iff\<close>) sends that client exactly one error
  frame, \<open>''Empty message''\<close> when the limiter passes the frame and
  \<open>''Rate limit exceeded''\<close> when it does not, and leaves the session registry, the
  history and the set of clients as they were; the rate-limit entry of the sender's
  session is updated as for any message frame.
\<close>

theorem empty_message_counted:
  assumes "valid_run init es" and "clients (run es init) c = Some k"
    and "sessionId k = Some sid" and "field msg ''type'' = Some (JStr ''message'')"
    and "invalid_content (field msg ''content'')"
  shows "on_message c (Parsed msg) now uuid (run es init) =
           (run es init)
             \<lparr>rateLimitMap := (rateLimitMap (run es init))(sid \<mapsto>
                 fst (rate_limit now (rateLimitMap (run es init) sid))),
              clients := (clients (run es init))(c \<mapsto>
                 k\<lparr>outbox := outbox k @
                    [ErrorF (if snd (rate_limit now (rateLimitMap (run es init) sid))
                             then ''Empty message'' else ''Rate limit exceeded'')]\<rparr>)\<rparr>"
proof -
  let ?s = "run es init"
  have j: "joined k" using bound_joined [OF assms(1,2,3)] by simp
  have chat: "on_message c (Parsed msg) now uuid ?s = do_chat c sid msg now uuid ?s"
    by (rule on_message_chat [OF assms(2) j assms(3,4)])
  show ?thesis
  proof (cases "snd (rate_limit now (rateLimitMap ?s sid))")
    case True
    then show ?thesis
      using do_chat_empty [OF assms(2) True assms(5), of uuid] chat by simp
  next
    case False
    then show ?thesis
      using do_chat_rejected [OF assms(2) False, of msg uuid] chat by simp
  qed
qed

text \<open>
  The claim as stated (no state change, the rate-limiter state included, and always
  \<open>''Empty message''\<close>) fails: after alice's join her session has no rate-limit entry, and
  an empty message frame creates one; after ten messages in the window an empty message
  frame is answered with \<open>''Rate limit exceeded''\<close>.
\<close>

theorem empty_message_changes_rate_state:
  "valid_run init alice_joined \<and>
   clients (run alice_joined init) 0 = Some alice_conn \<and>
   sessionId alice_conn = Some ''s1'' \<and>
   field (chat_msg []) ''type'' = Some (JStr ''message'') \<and>
   field (chat_msg []) ''content'' = Some (JStr []) \<and>
   rateLimitMap (run alice_joined init) ''s1'' = None \<and>
   rateLimitMap (on_message 0 (Parsed (chat_msg [])) 200 ''m1'' (run alice_joined init)) ''s1''
     = Some \<lparr>rl_count = 1, rl_last = 200\<rparr> \<and>
   last (outbox (the (clients
       (on_message 0 (Parsed (chat_msg [])) 111 ''m1'' (run (alice_flood 10) init)) 0)))
     = ErrorF ''Rate limit exceeded''"
  by code_simp

theorem empty_message_counted_witness:
  "on_message 0 (Parsed (chat_msg [])) 200 ''m1'' (run alice_joined init) =
     (run alice_joined init)
       \<lparr>rateLimitMap := (rateLimitMap (run alice_joined init))(''s1'' \<mapsto> \<lparr>rl_count = 1, rl_last = 200\<rparr>),
        clients := (clients (run alice_joined init))(0 \<mapsto>
          \<lparr>sessionId = Some ''s1'', readyState = OPEN,
           outbox = [WelcomeF ''s1'', PresenceF Join ''alice'', HistoryF [],
                     ErrorF ''Empty message'']\<rparr>)\<rparr>"
proof -
  have h3: "sessionId alice_conn = Some ''s1''"
    by (simp add: alice_conn_def)
  have h4: "field (chat_msg []) ''type'' = Some (JStr ''message'')"
    by (simp add: chat_msg_def)
  have h5: "invalid_content (field (chat_msg []) ''content'')"
    by (simp add: chat_msg_def invalid_content_def)
  have none: "rateLimitMap (run alice_joined init) ''s1'' = None"
    by code_simp
  show ?thesis
    using empty_message_counted [OF alice_joined_valid alice_joined_conn h3 h4 h5, of 200 "''m1''"]
    by (simp add: none rate_limit_None alice_conn_def)
qed

subsection \<open>The count of an entry\<close>

lemma counts_step:
  assumes "\<forall>sid rl. rateLimitMap s sid = Some rl \<longrightarrow> 1 \<le> rl_count rl"
  shows "\<forall>sid rl. rateLimitMap (step s e) sid = Some rl \<longrightarrow> 1 \<le> rl_count rl"
proof (cases e)
  case (Recv c raw now uuid)
  from on_message_cases [of raw s c now uuid] show ?thesis
  proof
    assume "\<exists>k sid msg. raw = Parsed msg \<and> clients s c = Some k \<and> joined k \<and>
        sessionId k = Some sid \<and> on_message c raw now uuid s = do_chat c sid msg now uuid s"
    then obtain sid msg where "on_message c raw now uuid s = do_chat c sid msg now uuid s"
      by blast
    then show ?thesis
      using assms Recv rate_limit_counts [of now "rateLimitMap s sid"]
      by (simp add: do_chat_rateLimitMap)
  next
    assume "rateLimitMap (on_message c raw now uuid s) = rateLimitMap s \<and>
        messages (on_message c raw now uuid s) = messages s"
    then show ?thesis using assms Recv by simp
  qed
qed (use assms in simp_all)

lemma counts_run:
  "\<forall>sid rl. rateLimitMap s sid = Some rl \<longrightarrow> 1 \<le> rl_count rl \<Longrightarrow>
   \<forall>sid rl. rateLimitMap (run es s) sid = Some rl \<longrightarrow> 1 \<le> rl_count rl"
proof (induction es arbitrary: s)
  case Nil
  then show ?case by simp
next
  case (Cons e es)
  from counts_step [OF Cons.prems] have "\<forall>sid rl. rateLimitMap (step s e) sid = Some rl \<longrightarrow> 1 \<le> rl_count rl" .
  from Cons.IH [OF this] show ?case by simp
qed

lemma accept_within_quota:
  assumes "messages (step s e) \<noteq> messages s"
  shows "\<exists>c raw now uuid k sid rl. e = Recv c raw now uuid \<and> clients s c = Some k \<and>
           sessionId k = Some sid \<and> rateLimitMap (step s e) sid = Some rl \<and>
           rl_count rl \<le> RATE_LIMIT_MAX"
proof (cases e)
  case (Recv c raw now uuid)
  from on_message_cases [of raw s c now uuid] assms Recv
  obtain k sid msg where k: "clients s c = Some k" and sid: "sessionId k = Some sid"
    and chat: "on_message c raw now uuid s = do_chat c sid msg now uuid s"
    by auto
  have "snd (rate_limit now (rateLimitMap s sid))"
    using assms Recv chat do_chat_messages by simp
  then have "rl_count (fst (rate_limit now (rateLimitMap s sid))) \<le> RATE_LIMIT_MAX"
    by (simp add: rate_limit_passes)
  then show ?thesis
    using Recv k sid chat by (simp add: do_chat_rateLimitMap)
qed (use assms in simp_all)

text \<open>
  Claim C4, as the code has it. The count of an entry is not bounded by
  \<open>RATE_LIMIT_MAX\<close>. Along every run, every entry has a count of at least 1; every
  message frame of a bound client, accepted or rejected, adds one to the count of its
  session's entry while the window has not rolled over (and starts an entry with count 1
  when there is none or the window has rolled over); and whenever an event appends to the
  history, the event is a frame of a client bound to a session whose entry, after the
  event, has a count of at most \<open>RATE_LIMIT_MAX\<close>.
\<close>

theorem accepted_within_quota:
  assumes "valid_run init es"
  shows "(\<forall>sid rl. rateLimitMap (run es init) sid = Some rl \<longrightarrow> 1 \<le> rl_count rl) \<and>
         (\<forall>c k sid msg now uuid.
            clients (run es init) c = Some k \<longrightarrow> sessionId k = Some sid \<longrightarrow>
            field msg ''type'' = Some (JStr ''message'') \<longrightarrow>
            rateLimitMap (step (run es init) (Recv c (Parsed msg) now uuid)) sid =
              Some (case rateLimitMap (run es init) sid of
                      None \<Rightarrow> \<lparr>rl_count = 1, rl_last = now\<rparr>
                    | Some rl \<Rightarrow>
                        if now - rl_last rl \<le> RATE_LIMIT_WINDOW
                        then rl\<lparr>rl_count := rl_count rl + 1\<rparr>
                        else \<lparr>rl_count = 1, rl_last = now\<rparr>)) \<and>
         (\<forall>e. messages (step (run es init) e) \<noteq> messages (run es init) \<longrightarrow>
            (\<exists>c raw now uuid k sid rl. e = Recv c raw now uuid \<and>
               clients (run es init) c = Some k \<and> sessionId k = Some sid \<and>
               rateLimitMap (step (run es init) e) sid = Some rl \<and>
               rl_count rl \<le> RATE_LIMIT_MAX))"
proof (intro conjI)
  show "\<forall>sid rl. rateLimitMap (run es init) sid = Some rl \<longrightarrow> 1 \<le> rl_count rl"
    by (rule counts_run) (simp add: init_def)
  show "\<forall>c k sid msg now uuid.
            clients (run es init) c = Some k \<longrightarrow> sessionId k = Some sid \<longrightarrow>
            field msg ''type'' = Some (JStr ''message'') \<longrightarrow>
            rateLimitMap (step (run es init) (Recv c (Parsed msg) now uuid)) sid =
              Some (case rateLimitMap (run es init) sid of
                      None \<Rightarrow> \<lparr>rl_count = 1, rl_last = now\<rparr>
                    | Some rl \<Rightarrow>
                        if now - rl_last rl \<le> RATE_LIMIT_WINDOW
                        then rl\<lparr>rl_count := rl_count rl + 1\<rparr>
                        else \<lparr>rl_count = 1, rl_last = now\<rparr>)"
  proof (intro allI impI)
    fix c k sid msg now uuid
    assume k: "clients (run es init) c = Some k" and sid: "sessionId k = Some sid"
      and t: "field msg ''type'' = Some (JStr ''message'')"
    from bound_joined [OF assms k sid] have "joined k" by simp
    from on_message_chat [OF k this sid t, of now uuid]
    have "rateLimitMap (step (run es init) (Recv c (Parsed msg) now uuid)) sid =
        Some (fst (rate_limit now (rateLimitMap (run es init) sid)))"
      by (simp add: do_chat_rateLimitMap)
    then show "rateLimitMap (step (run es init) (Recv c (Parsed msg) now uuid)) sid =
              Some (case rateLimitMap (run es init) sid of
                      None \<Rightarrow> \<lparr>rl_count = 1, rl_last = now\<rparr>
                    | Some rl \<Rightarrow>
                        if now - rl_last rl \<le> RATE_LIMIT_WINDOW
                        then rl\<lparr>rl_count := rl_count rl + 1\<rparr>
                        else \<lparr>rl_count = 1, rl_last = now\<rparr>)"
      by (cases "rateLimitMap (run es init) sid")
         (simp_all add: rate_limit_def Let_def not_le RATE_LIMIT_WINDOW_def)
  qed
  show "\<forall>e. messages (step (run es init) e) \<noteq> messages (run es init) \<longrightarrow>
            (\<exists>c raw now uuid k sid rl. e = Recv c raw now uuid \<and>
               clients (run es init) c = Some k \<and> sessionId k = Some sid \<and>
               rateLimitMap (step (run es init) e) sid = Some rl \<and>
               rl_count rl \<le> RATE_LIMIT_MAX)"
    using accept_within_quota by blast
qed

text \<open>
  The claim as stated fails: after alice's eleventh message frame (sent at time 110, in the
  window that started at 100) the recorded count is 11.
\<close>

theorem count_exceeds_maximum_in_window:
  "valid_run init (alice_flood 11) \<and>
   rateLimitMap (run (alice_flood 11) init) ''s1'' = Some \<lparr>rl_count = 11, rl_last = 100\<rparr> \<and>
   (100::int) \<le> 110 \<and> (110::int) < 100 + RATE_LIMIT_WINDOW \<and> RATE_LIMIT_MAX < 11"
  by code_simp

lemma flood9_valid: "valid_run init (alice_flood 9)"
  by code_simp

lemma flood9_conn:
  "clients (run (alice_flood 9) init) 0 = Some (the (clients (run (alice_flood 9) init) 0))"
  by code_simp

lemma flood9_sid: "sessionId (the (clients (run (alice_flood 9) init) 0)) = Some ''s1''"
  by code_simp

lemma flood11_valid: "valid_run init (alice_flood 11)"
  by code_simp

lemma flood11_conn:
  "clients (run (alice_flood 11) init) 0 = Some (the (clients (run (alice_flood 11) init) 0))"
  by code_simp

lemma flood11_sid: "sessionId (the (clients (run (alice_flood 11) init) 0)) = Some ''s1''"
  by code_simp

lemma flood11_rl:
  "rateLimitMap (run (alice_flood 11) init) ''s1'' = Some \<lparr>rl_count = 11, rl_last = 100\<rparr>"
  by code_simp

theorem accepted_within_quota_witness:
  "1 \<le> rl_count (the (rateLimitMap (run (alice_flood 9) init) ''s1'')) \<and>
   rateLimitMap (step (run (alice_flood 9) init)
       (Recv 0 (Parsed (chat_msg ''hi'')) 109 ''z'')) ''s1'' = Some \<lparr>rl_count = 10, rl_last = 100\<rparr> \<and>
   rateLimitMap (step (run (alice_flood 11) init)
       (Recv 0 (Parsed (chat_msg ''hi'')) 111 ''z'')) ''s1'' = Some \<lparr>rl_count = 12, rl_last = 100\<rparr> \<and>
   rateLimitMap (step (run (alice_flood 11) init)
       (Recv 0 (Parsed (chat_msg ''hi'')) 5101 ''z'')) ''s1'' = Some \<lparr>rl_count = 1, rl_last = 5101\<rparr> \<and>
   (\<exists>rl. rateLimitMap (step (run (alice_flood 9) init)
                 (Recv 0 (Parsed (chat_msg ''hi'')) 109 ''z'')) ''s1'' = Some rl \<and>
         rl_count rl \<le> RATE_LIMIT_MAX)"
proof -
  note inst = accepted_within_quota [OF flood9_valid]
  note inst11 = accepted_within_quota [OF flood11_valid]
  have t: "field (chat_msg ''hi'') ''type'' = Some (JStr ''message'')"
    by (simp add: chat_msg_def)
  have entry: "rateLimitMap (run (alice_flood 9) init) ''s1'' = Some \<lparr>rl_count = 9, rl_last = 100\<rparr>"
    by code_simp
  have a: "1 \<le> rl_count (the (rateLimitMap (run (alice_flood 9) init) ''s1''))"
    using inst entry by simp
  from inst flood9_conn flood9_sid t
  have "rateLimitMap (step (run (alice_flood 9) init)
       (Recv 0 (Parsed (chat_msg ''hi'')) 109 ''z'')) ''s1'' =
      Some (case rateLimitMap (run (alice_flood 9) init) ''s1'' of
              None \<Rightarrow> \<lparr>rl_count = 1, rl_last = 109\<rparr>
            | Some rl \<Rightarrow>
                if 109 - rl_last rl \<le> RATE_LIMIT_WINDOW
                then rl\<lparr>rl_count := rl_count rl + 1\<rparr>
                else \<lparr>rl_count = 1, rl_last = 109\<rparr>)"
    by blast
  then have b: "rateLimitMap (step (run (alice_flood 9) init)
       (Recv 0 (Parsed (chat_msg ''hi'')) 109 ''z'')) ''s1'' = Some \<lparr>rl_count = 10, rl_last = 100\<rparr>"
    by (simp add: entry RATE_LIMIT_WINDOW_def)
  from inst11 flood11_conn flood11_sid t
  have step11: "\<And>now. rateLimitMap (step (run (alice_flood 11) init)
       (Recv 0 (Parsed (chat_msg ''hi'')) now ''z'')) ''s1'' =
      Some (case rateLimitMap (run (alice_flood 11) init) ''s1'' of
              None \<Rightarrow> \<lparr>rl_count = 1, rl_last = now\<rparr>
            | Some rl \<Rightarrow>
                if now - rl_last rl \<le> RATE_LIMIT_WINDOW
                then rl\<lparr>rl_count := rl_count rl + 1\<rparr>
                else \<lparr>rl_count = 1, rl_last = now\<rparr>)"
    by blast
  have c: "rateLimitMap (step (run (alice_flood 11) init)
       (Recv 0 (Parsed (chat_msg ''hi'')) 111 ''z'')) ''s1'' = Some \<lparr>rl_count = 12, rl_last = 100\<rparr>"
    using step11 [of 111] by (simp add: flood11_rl RATE_LIMIT_WINDOW_def)
  have d: "rateLimitMap (step (run (alice_flood 11) init)
       (Recv 0 (Parsed (chat_msg ''hi'')) 5101 ''z'')) ''s1'' = Some \<lparr>rl_count = 1, rl_last = 5101\<rparr>"
    using step11 [of 5101] by (simp add: flood11_rl RATE_LIMIT_WINDOW_def)
  have grows: "messages (step (run (alice_flood 9) init) (Recv 0 (Parsed (chat_msg ''hi'')) 109 ''z''))
      \<noteq> messages (run (alice_flood 9) init)"
    by code_simp
  with inst obtain c' raw now uuid k sid rl where
    e: "Recv 0 (Parsed (chat_msg ''hi'')) 109 ''z'' = Recv c' raw now uuid"
    and k: "clients (run (alice_flood 9) init) c' = Some k" and sid: "sessionId k = Some sid"
    and rl: "rateLimitMap (step (run (alice_flood 9) init)
                 (Recv 0 (Parsed (chat_msg ''hi'')) 109 ''z'')) sid = Some rl"
    and le: "rl_count rl \<le> RATE_LIMIT_MAX"
    by blast
  from e have "c' = 0" by simp
  with k sid flood9_conn flood9_sid have "sid = ''s1''" by simp
  with rl le have "\<exists>rl. rateLimitMap (step (run (alice_flood 9) init)
                 (Recv 0 (Parsed (chat_msg ''hi'')) 109 ''z'')) ''s1'' = Some rl \<and>
         rl_count rl \<le> RATE_LIMIT_MAX"
    by blast
  with a b c d show ?thesis by blast
qed

subsection \<open>The rate-limit check of the source and of the specification\<close>

text \<open>
  Claim C5, as the code has it. The check of the source starts a new window (start
  \<open>now\<close>, count 0) when the session has no entry or when \<open>now - last\<close> is strictly
  greater than \<open>RATE_LIMIT_WINDOW\<close>; then it increments the count; the frame passes if
  and only if the new count is at most \<open>RATE_LIMIT_MAX\<close>. It agrees with the check of
  the specification when there is no entry and whenever \<open>now - last\<close> differs from
  \<open>RATE_LIMIT_WINDOW\<close>; a check exactly \<open>RATE_LIMIT_WINDOW\<close> after the start still
  belongs to the old window, whose count it increments. In the handler of a joined client
  the entry stored for the session is the one this check returns, a frame is stored in the
  history only if the check passes, and a frame that does not pass is answered with
  \<open>''Rate limit exceeded''\<close>.
\<close>

theorem rate_check_strict_window:
  "rate_limit now st =
     (let st0 = (case st of
                   None \<Rightarrow> \<lparr>rl_count = 0, rl_last = now\<rparr>
                 | Some r \<Rightarrow> if now - rl_last r > RATE_LIMIT_WINDOW
                            then \<lparr>rl_count = 0, rl_last = now\<rparr> else r);
          st1 = st0\<lparr>rl_count := rl_count st0 + 1\<rparr>
      in (st1, rl_count st1 \<le> RATE_LIMIT_MAX)) \<and>
   (st = None \<longrightarrow> rate_limit now st = admit_spec now st) \<and>
   (\<forall>r. st = Some r \<longrightarrow> now - rl_last r \<noteq> RATE_LIMIT_WINDOW \<longrightarrow>
        rate_limit now st = admit_spec now st) \<and>
   (\<forall>r. st = Some r \<longrightarrow> now - rl_last r = RATE_LIMIT_WINDOW \<longrightarrow>
        rate_limit now st = (r\<lparr>rl_count := rl_count r + 1\<rparr>, rl_count r + 1 \<le> RATE_LIMIT_MAX)) \<and>
   (clients s c = Some k \<longrightarrow> joined k \<longrightarrow> sessionId k = Some sid \<longrightarrow>
      field msg ''type'' = Some (JStr ''message'') \<longrightarrow>
        rateLimitMap (on_message c (Parsed msg) now uuid s) sid =
          Some (fst (rate_limit now (rateLimitMap s sid))) \<and>
        (messages (on_message c (Parsed msg) now uuid s) \<noteq> messages s \<longrightarrow>
           snd (rate_limit now (rateLimitMap s sid))) \<and>
        (\<not> snd (rate_limit now (rateLimitMap s sid)) \<longrightarrow>
           clients (on_message c (Parsed msg) now uuid s) c =
             Some (k\<lparr>outbox := outbox k @ [ErrorF ''Rate limit exceeded'']\<rparr>)))"
proof (intro conjI impI allI)
  show "rate_limit now st =
     (let st0 = (case st of
                   None \<Rightarrow> \<lparr>rl_count = 0, rl_last = now\<rparr>
                 | Some r \<Rightarrow> if now - rl_last r > RATE_LIMIT_WINDOW
                            then \<lparr>rl_count = 0, rl_last = now\<rparr> else r);
          st1 = st0\<lparr>rl_count := rl_count st0 + 1\<rparr>
      in (st1, rl_count st1 \<le> RATE_LIMIT_MAX))"
    by (cases st) (simp_all add: rate_limit_def Let_def not_less RATE_LIMIT_WINDOW_def)
next
  assume "st = None"
  then show "rate_limit now st = admit_spec now st"
    by (simp add: rate_limit_def admit_spec_def Let_def not_less RATE_LIMIT_WINDOW_def)
next
  fix r assume "st = Some r" and "now - rl_last r \<noteq> RATE_LIMIT_WINDOW"
  then show "rate_limit now st = admit_spec now st"
    by (auto simp: rate_limit_def admit_spec_def Let_def not_less)
next
  fix r assume "st = Some r" and "now - rl_last r = RATE_LIMIT_WINDOW"
  then show "rate_limit now st = (r\<lparr>rl_count := rl_count r + 1\<rparr>, rl_count r + 1 \<le> RATE_LIMIT_MAX)"
    by (simp add: rate_limit_same_window)
next
  assume h: "clients s c = Some k" "joined k" "sessionId k = Some sid"
    "field msg ''type'' = Some (JStr ''message'')"
  note chat = on_message_chat [OF h, of now uuid]
  show "rateLimitMap (on_message c (Parsed msg) now uuid s) sid =
      Some (fst (rate_limit now (rateLimitMap s sid)))"
    by (simp add: chat do_chat_rateLimitMap)
  {
    assume "messages (on_message c (Parsed msg) now uuid s) \<noteq> messages s"
    then show "snd (rate_limit now (rateLimitMap s sid))"
      using do_chat_messages [of c sid msg now uuid s] by (simp add: chat)
  }
  {
    assume "\<not> snd (rate_limit now (rateLimitMap s sid))"
    from do_chat_rejected [OF h(1) this, of msg uuid]
    show "clients (on_message c (Parsed msg) now uuid s) c =
        Some (k\<lparr>outbox := outbox k @ [ErrorF ''Rate limit exceeded'']\<rparr>)"
      by (simp add: chat)
  }
qed

text \<open>
  The claim as stated (reset when \<open>now - windowStart \<ge> windowDurationMs\<close>) fails at the
  boundary: with ten frames counted in the window that started at 100, the check at time
  5100 gives count 11 and rejects, where the specification's check starts a new window
  and admits.
\<close>

theorem window_boundary_not_reset:
  "rate_limit 5100 (Some \<lparr>rl_count = 10, rl_last = 100\<rparr>) = (\<lparr>rl_count = 11, rl_last = 100\<rparr>, False) \<and>
   admit_spec 5100 (Some \<lparr>rl_count = 10, rl_last = 100\<rparr>) = (\<lparr>rl_count = 1, rl_last = 5100\<rparr>, True) \<and>
   (5100::int) - 100 = RATE_LIMIT_WINDOW \<and>
   valid_run init (alice_flood 10) \<and>
   rateLimitMap (run (alice_flood 10) init) ''s1'' = Some \<lparr>rl_count = 10, rl_last = 100\<rparr> \<and>
   rateLimitMap (on_message 0 (Parsed (chat_msg ''hi'')) 5100 ''z'' (run (alice_flood 10) init)) ''s1''
     = Some \<lparr>rl_count = 11, rl_last = 100\<rparr> \<and>
   last (outbox (the (clients
       (on_message 0 (Parsed (chat_msg ''hi'')) 5100 ''z'' (run (alice_flood 10) init)) 0)))
     = ErrorF ''Rate limit exceeded''"
  by code_simp

theorem rate_check_strict_window_witness:
  "rate_limit 5101 (Some \<lparr>rl_count = 10, rl_last = 100\<rparr>) = (\<lparr>rl_count = 1, rl_last = 5101\<rparr>, True) \<and>
   admit_spec 5101 (Some \<lparr>rl_count = 10, rl_last = 100\<rparr>) = (\<lparr>rl_count = 1, rl_last = 5101\<rparr>, True) \<and>
   rate_limit 5100 (Some \<lparr>rl_count = 10, rl_last = 100\<rparr>) = (\<lparr>rl_count = 11, rl_last = 100\<rparr>, False) \<and>
   rate_limit 7 None = admit_spec 7 None \<and>
   rateLimitMap (on_message 0 (Parsed (chat_msg ''hi'')) 5100 ''z'' (run (alice_flood 10) init)) ''s1''
     = Some \<lparr>rl_count = 11, rl_last = 100\<rparr> \<and>
   clients (on_message 0 (Parsed (chat_msg ''hi'')) 5100 ''z'' (run (alice_flood 10) init)) 0 =
     Some ((the (clients (run (alice_flood 10) init) 0))
             \<lparr>outbox := outbox (the (clients (run (alice_flood 10) init) 0)) @
                [ErrorF ''Rate limit exceeded'']\<rparr>)"
proof -
  have late: "(5101::int) - rl_last \<lparr>rl_count = 10, rl_last = 100\<rparr> \<noteq> RATE_LIMIT_WINDOW"
    and edge: "(5100::int) - rl_last \<lparr>rl_count = 10, rl_last = 100\<rparr> = RATE_LIMIT_WINDOW"
    by (simp_all add: RATE_LIMIT_WINDOW_def)
  have spec: "admit_spec 5101 (Some \<lparr>rl_count = 10, rl_last = 100\<rparr>) = (\<lparr>rl_count = 1, rl_last = 5101\<rparr>, True)"
    by (simp add: admit_spec_def RATE_LIMIT_WINDOW_def RATE_LIMIT_MAX_def)
  have a: "rate_limit 5101 (Some \<lparr>rl_count = 10, rl_last = 100\<rparr>) = (\<lparr>rl_count = 1, rl_last = 5101\<rparr>, True)"
    using rate_check_strict_window [of 5101 "Some \<lparr>rl_count = 10, rl_last = 100\<rparr>"] late spec
    by (simp add: RATE_LIMIT_WINDOW_def RATE_LIMIT_MAX_def)
  have b: "rate_limit 5100 (Some \<lparr>rl_count = 10, rl_last = 100\<rparr>) = (\<lparr>rl_count = 11, rl_last = 100\<rparr>, False)"
    using rate_check_strict_window [of 5100 "Some \<lparr>rl_count = 10, rl_last = 100\<rparr>"] edge
    by (simp add: RATE_LIMIT_WINDOW_def RATE_LIMIT_MAX_def)
  have c: "rate_limit 7 None = admit_spec 7 None"
    using rate_check_strict_window [of 7 None] by blast
  have j: "joined (the (clients (run (alice_flood 10) init) 0))"
    using flood10_sid by (simp add: joined_def)
  have t: "field (chat_msg ''hi'') ''type'' = Some (JStr ''message'')"
    by (simp add: chat_msg_def)
  have d: "rateLimitMap (on_message 0 (Parsed (chat_msg ''hi'')) 5100 ''z'' (run (alice_flood 10) init)) ''s1''
      = Some \<lparr>rl_count = 11, rl_last = 100\<rparr> \<and>
    clients (on_message 0 (Parsed (chat_msg ''hi'')) 5100 ''z'' (run (alice_flood 10) init)) 0 =
     Some ((the (clients (run (alice_flood 10) init) 0))
             \<lparr>outbox := outbox (the (clients (run (alice_flood 10) init) 0)) @
                [ErrorF ''Rate limit exceeded'']\<rparr>)"
    using rate_check_strict_window [of 5100 "rateLimitMap (run (alice_flood 10) init) ''s1''"
        "run (alice_flood 10) init" 0 "the (clients (run (alice_flood 10) init) 0)" "''s1''"
        "chat_msg ''hi''" "''z''"]
      flood10_conn flood10_sid j t b
    by (simp add: flood10_rl)
  from a spec b c d show ?thesis by simp
qed

subsection \<open>The rate-limit entry of a session that is gone\<close>

lemma new_entry_registered:
  assumes "bound_ok s" and "rateLimitMap (step s e) sid \<noteq> None"
  shows "rateLimitMap s sid \<noteq> None \<or> sessions s sid \<noteq> None"
proof (cases e)
  case (Recv c raw now uuid)
  from on_message_cases [of raw s c now uuid] show ?thesis
  proof
    assume "\<exists>k sid msg. raw = Parsed msg \<and> clients s c = Some k \<and> joined k \<and>
        sessionId k = Some sid \<and> on_message c raw now uuid s = do_chat c sid msg now uuid s"
    then obtain k sid' msg where k: "clients s c = Some k" and sid': "sessionId k = Some sid'"
      and chat: "on_message c raw now uuid s = do_chat c sid' msg now uuid s"
      by blast
    have "binding s c = Some (Some sid')" using k sid' by (simp add: binding_def)
    with assms(1) have "sessions s sid' \<noteq> None" unfolding bound_ok_def by fastforce
    then show ?thesis
      using assms(2) Recv chat by (cases "sid = sid'") (simp_all add: do_chat_rateLimitMap)
  next
    assume "rateLimitMap (on_message c raw now uuid s) = rateLimitMap s \<and>
        messages (on_message c raw now uuid s) = messages s"
    then show ?thesis using assms(2) Recv by simp
  qed
qed (use assms in simp_all)

text \<open>
  Claim C7, as the code has it. Nothing in the source deletes from \<^verbatim>\<open>rateLimitMap\<close>.
  Along every run, the close handler leaves the rate-limit map as it is while it removes
  the session bound to the closing client from the registry; and an entry that an event
  adds to the rate-limit map is the entry of a session registered at that moment.
\<close>

theorem rate_entry_outlives_session:
  assumes "valid_run init es"
  shows "rateLimitMap (on_close c (run es init)) = rateLimitMap (run es init) \<and>
         (\<forall>k sid. clients (run es init) c = Some k \<longrightarrow> sessionId k = Some sid \<longrightarrow>
            sessions (on_close c (run es init)) sid = None) \<and>
         (\<forall>e sid. rateLimitMap (step (run es init) e) sid \<noteq> None \<longrightarrow>
            rateLimitMap (run es init) sid \<noteq> None \<or> sessions (run es init) sid \<noteq> None)"
proof (intro conjI allI impI)
  show "rateLimitMap (on_close c (run es init)) = rateLimitMap (run es init)"
    by simp
next
  fix k sid
  assume k: "clients (run es init) c = Some k" and sid: "sessionId k = Some sid"
  from bound_joined [OF assms k sid] have "joined k" by simp
  then show "sessions (on_close c (run es init)) sid = None"
    using k sid by (simp add: sessions_on_close)
next
  fix e sid
  assume "rateLimitMap (step (run es init) e) sid \<noteq> None"
  with new_entry_registered [OF bound_ok_reachable [OF assms]]
  show "rateLimitMap (run es init) sid \<noteq> None \<or> sessions (run es init) sid \<noteq> None"
    by blast
qed

text \<open>
  The claim as stated fails: after alice has sent one message and her connection has
  closed, the rate-limit map still has the entry of her session, which is no longer
  registered.
\<close>

theorem rate_entry_left_after_close:
  "valid_run init alice_left \<and>
   rateLimitMap (run alice_left init) ''s1'' = Some \<lparr>rl_count = 1, rl_last = 100\<rparr> \<and>
   sessions (run alice_left init) ''s1'' = None"
  by code_simp

lemma flood1_valid: "valid_run init (alice_flood 1)"
  by code_simp

theorem rate_entry_outlives_session_witness:
  "rateLimitMap (on_close 0 (run (alice_flood 1) init)) ''s1'' = Some \<lparr>rl_count = 1, rl_last = 100\<rparr> \<and>
   sessions (on_close 0 (run (alice_flood 1) init)) ''s1'' = None \<and>
   sessions (run (alice_flood 1) init) ''s1'' =
     Some \<lparr>sess_id = ''s1'', username = ''alice'', connectedAt = 100\<rparr>"
proof -
  note inst = rate_entry_outlives_session [OF flood1_valid, of 0]
  have k: "clients (run (alice_flood 1) init) 0 = Some (the (clients (run (alice_flood 1) init) 0))"
    by code_simp
  have sid: "sessionId (the (clients (run (alice_flood 1) init) 0)) = Some ''s1''"
    by code_simp
  have entry: "rateLimitMap (run (alice_flood 1) init) ''s1'' = Some \<lparr>rl_count = 1, rl_last = 100\<rparr>"
    by code_simp
  have reg: "sessions (run (alice_flood 1) init) ''s1'' =
     Some \<lparr>sess_id = ''s1'', username = ''alice'', connectedAt = 100\<rparr>"
    by code_simp
  from inst k sid have "sessions (on_close 0 (run (alice_flood 1) init)) ''s1'' = None"
    by blast
  moreover from inst entry
  have "rateLimitMap (on_close 0 (run (alice_flood 1) init)) ''s1'' = Some \<lparr>rl_count = 1, rl_last = 100\<rparr>"
    by simp
  ultimately show ?thesis using reg by simp
qed

end
